theory Spec2Isabelle
  imports Main
begin

section \<open>Python values used by main.py\<close>

text \<open>
  A Python \<open>str\<close> is a sequence of Unicode code points, so it is modelled as a list of
  natural numbers; \<open>len\<close> is \<open>length\<close> and \<open>+\<close> on strings is \<open>@\<close>.
  A \<open>bytes\<close> value is a list of 8-bit characters.  String literals of the source are
  written with \<open>lit\<close>.
\<close>

type_synonym pystr = "nat list"
type_synonym bytes = "char list"

definition lit :: "string \<Rightarrow> pystr" where
  "lit s = map of_char s"

text \<open>
  An instance of Python's \<open>Exception\<close> class, identified by its message.  Every
  handler of main.py is \<open>except Exception\<close> or a bare \<open>except\<close>, and both catch every
  value of this type.  Signals outside the \<open>Exception\<close> hierarchy (interpreter exit,
  keyboard interrupt) are not modelled.
\<close>

datatype exn = Exception string

text \<open>
  \<open>str.strip()\<close> without arguments removes leading and trailing whitespace, where
  whitespace is what \<open>str.isspace\<close> accepts.
\<close>

definition isspace :: "nat \<Rightarrow> bool" where
  "isspace c \<longleftrightarrow>
     (9 \<le> c \<and> c \<le> 13) \<or> (28 \<le> c \<and> c \<le> 32) \<or> c = 133 \<or> c = 160 \<or> c = 5760 \<or>
     (8192 \<le> c \<and> c \<le> 8202) \<or> c = 8232 \<or> c = 8233 \<or> c = 8239 \<or> c = 8287 \<or> c = 12288"

definition strip :: "pystr \<Rightarrow> pystr" where
  "strip s = rev (dropWhile isspace (rev (dropWhile isspace s)))"

text \<open>\<open>str(n)\<close> for a non-negative integer: its decimal digits.\<close>

fun str_nat :: "nat \<Rightarrow> pystr" where
  "str_nat n = (if n < 10 then [48 + n] else str_nat (n div 10) @ [48 + n mod 10])"

declare str_nat.simps [simp del]

text \<open>The f-string \<open>f"\n--- Page {i+1} ---\n"\<close>, as a function of the number shown.\<close>

definition marker :: "nat \<Rightarrow> pystr" where
  "marker n = 10 # lit ''--- Page '' @ str_nat n @ lit '' ---'' @ [10]"

text \<open>\<open>text.split('\n')\<close>: the segments between newlines; never an empty list.\<close>

fun split_newline :: "pystr \<Rightarrow> pystr list" where
  "split_newline [] = [[]]"
| "split_newline (c # cs) =
     (if c = 10 then [] # split_newline cs
      else (case split_newline cs of
              [] \<Rightarrow> [[c]]
            | l # ls \<Rightarrow> (c # l) # ls))"

text \<open>\<open>s.encode('latin-1')\<close>: one byte per code point, an exception beyond 255.\<close>

definition encode_latin1 :: "pystr \<Rightarrow> exn + bytes" where
  "encode_latin1 s =
     (if list_all (\<lambda>c. c < 256) s then Inr (map char_of s)
      else Inl (Exception ''UnicodeEncodeError''))"

section \<open>External collaborators\<close>

text \<open>
  The libraries main.py calls are parameters of the model.  A call that can raise returns
  \<open>Inl e\<close> (or \<open>Some e\<close> when it has no result); the functions of main.py decide what
  happens next.
\<close>

text \<open>
  The \<open>FPDF\<close> object is mutated in place, so a method call that raises may still have
  changed it: both outcomes carry the object's new state.
\<close>

datatype 's outcome = Returns 's | Raises exn 's

record 's fpdf =
  FPDF :: "exn + 's"
  add_page :: "'s \<Rightarrow> 's outcome"
  set_font :: "'s \<Rightarrow> string \<Rightarrow> string \<Rightarrow> nat \<Rightarrow> 's outcome"
  cell :: "'s \<Rightarrow> nat \<Rightarrow> nat \<Rightarrow> pystr \<Rightarrow> 's outcome"
  ln :: "'s \<Rightarrow> nat \<Rightarrow> 's outcome"
  multi_cell :: "'s \<Rightarrow> nat \<Rightarrow> nat \<Rightarrow> pystr \<Rightarrow> 's outcome"
  output_S :: "'s \<Rightarrow> exn + pystr"

text \<open>
  What \<open>pdfplumber.open\<close> gives: it raises, or it yields the pages, each with the outcome
  of its \<open>extract_text()\<close> (an exception, \<open>None\<close> or a string), and the outcome of closing
  the document when the \<open>with\<close> block is left.
\<close>

datatype plumber = OpenRaises exn | Opened "(exn + pystr option) list" "exn option"

type_synonym files = "string \<rightharpoonup> bytes"

record ('img, 's) world =
  tmp_pdf_path :: string
  import_exceptions :: "exn option"
  gettempdir :: "exn + string"
  open_wb :: "string \<Rightarrow> exn option"
  write_file :: "string \<Rightarrow> bytes \<Rightarrow> exn option"
  open_rb_read :: "string \<Rightarrow> exn option"
  os_remove :: "string \<Rightarrow> exn option"
  convert_from_bytes :: "bytes \<Rightarrow> nat \<Rightarrow> (nat \<times> nat) option \<Rightarrow> pystr option \<Rightarrow> exn + 'img list"
  fitz_open_len :: "string \<Rightarrow> exn + nat"
  pdfplumber_open :: "string \<Rightarrow> plumber"
  image_to_string :: "'img \<Rightarrow> string \<Rightarrow> exn + pystr"
  fpdf_lib :: "'s fpdf"

text \<open>The sidebar settings and the uploaded file.\<close>

record config =
  poppler_path :: pystr
  ocr_dpi :: nat
  ocr_lang :: string
  fallback_all_pages :: bool

record upload =
  name :: pystr
  file_bytes :: bytes

section \<open>What the user sees, and which collaborators were called\<close>

datatype level = Info | Warning | Error | Success

text \<open>
  The messages of main.py, one constructor per message text, with the values
  interpolated into it:
  \<^item> \<open>Processing\<close>: "Processing PDF... Please wait";
  \<^item> \<open>PdfHasPages n\<close>: "PDF has n pages";
  \<^item> \<open>PageCountUnknown e\<close>: "Could not determine page count: e";
  \<^item> \<open>NativeSuccessful\<close>: "Text-based extraction successful!";
  \<^item> \<open>NativeError e\<close>: "Text-based extraction error: e";
  \<^item> \<open>SwitchingToOcr\<close>: "Text-based extraction failed or forced OCR. Switching to OCR mode";
  \<^item> \<open>PopplerMissing\<close>: "Poppler is not installed or not in PATH. OCR cannot proceed. ...";
  \<^item> \<open>Converted n\<close>: "Successfully converted n pages to images for OCR";
  \<^item> \<open>ProcessedPage k n\<close>: "Processed page k/n";
  \<^item> \<open>OcrPageError k e\<close>: "OCR error on page k: e";
  \<^item> \<open>OcrProcessingError e\<close>: "OCR processing error: e";
  \<^item> \<open>ExtractionComplete\<close>: "Text extraction complete!";
  \<^item> \<open>PdfError e\<close>: "Error creating PDF: e";
  \<^item> \<open>NothingExtracted\<close>: "Failed to extract any text. Check the PDF or try another one."
\<close>

datatype message =
    Processing
  | PdfHasPages nat
  | PageCountUnknown exn
  | NativeSuccessful
  | NativeError exn
  | SwitchingToOcr
  | PopplerMissing
  | Converted nat
  | ProcessedPage nat nat
  | OcrPageError nat exn
  | OcrProcessingError exn
  | ExtractionComplete
  | PdfError exn
  | NothingExtracted

text \<open>
  Calls whose occurrence and order the specification talks about:
  \<open>is_poppler_installed\<close>, \<open>convert_from_bytes\<close> on the upload,
  \<open>pytesseract.image_to_string\<close> on page \<open>k\<close> (counted from 1), and \<open>os.unlink\<close> of the
  transient copy.
\<close>

datatype call = Preflight | Rasterize | Ocr nat | Unlink

text \<open>
  \<open>Progress k n\<close> is \<open>progress_bar.progress(k/n)\<close>; \<open>Tips\<close> is the troubleshooting
  expander, shown at the end of every run.
\<close>

datatype event =
    Show level message
  | Call call
  | Progress nat nat
  | ProgressEmpty
  | TextArea pystr
  | DownloadText pystr
  | DownloadPdf bytes
  | Tips

text \<open>The mutable state of one run of the script.\<close>

record state =
  extracted_text :: pystr
  trace :: "event list"
  files :: files

section \<open>is_poppler_installed\<close>

text \<open>The bytes of the one-page test document written by the preflight.\<close>

definition test_pdf :: bytes where
  "test_pdf =
     ''%PDF-1.7'' @ [CHR 0x0A] @
     ''1 0 obj<</Type/Catalog/Pages 2 0 R>>endobj 2 0 obj<</Type/Pages/Kids[3 0 R]/Count 1>>endobj 3 0 obj<</Type/Page/MediaBox[0 0 3 3]>>endobj'' @ [CHR 0x0A] @
     ''xref'' @ [CHR 0x0A] @ ''0 4'' @ [CHR 0x0A] @
     ''0000000000 65535 f'' @ [CHR 0x0A] @ ''0000000010 00000 n'' @ [CHR 0x0A] @
     ''0000000053 00000 n'' @ [CHR 0x0A] @ ''0000000102 00000 n'' @ [CHR 0x0A] @ [CHR 0x0A] @
     ''trailer<</Size 4/Root 1 0 R>>'' @ [CHR 0x0A] @ ''startxref'' @ [CHR 0x0A] @
     ''149'' @ [CHR 0x0A] @ ''%EOF'' @ [CHR 0x0A]"

definition os_path_join :: "string \<Rightarrow> string \<Rightarrow> string" where
  "os_path_join d f = (if d = [] \<or> last d = CHR ''/'' then d @ f else d @ ''/'' @ f)"

text \<open>
  \<open>os.remove\<close> and \<open>os.unlink\<close> are the same operation: a missing file raises, otherwise
  the world decides whether the deletion raises, and only a deletion that returns takes
  the file away.
\<close>

definition remove_file :: "('img, 's) world \<Rightarrow> files \<Rightarrow> string \<Rightarrow> exn option \<times> files" where
  "remove_file w fs p =
     (case fs p of
        None \<Rightarrow> (Some (Exception ''FileNotFoundError''), fs)
      | Some _ \<Rightarrow>
          (case os_remove w p of
             Some e \<Rightarrow> (Some e, fs)
           | None \<Rightarrow> (None, fs(p := None))))"

definition read_file :: "('img, 's) world \<Rightarrow> files \<Rightarrow> string \<Rightarrow> exn + bytes" where
  "read_file w fs p =
     (case fs p of
        None \<Rightarrow> Inl (Exception ''FileNotFoundError'')
      | Some content \<Rightarrow>
          (case open_rb_read w p of
             Some e \<Rightarrow> Inl e
           | None \<Rightarrow> Inr content))"

text \<open>
  The body of the \<open>try\<close> block of \<open>is_poppler_installed\<close> (lines 60 to 67), statement by
  statement.  It returns the exception raised or the value returned, and the files as
  they are at that moment.
\<close>

definition poppler_probe ::
  "('img, 's) world \<Rightarrow> files \<Rightarrow> pystr option \<Rightarrow> (exn + bool) \<times> files" where
  "poppler_probe w fs custom_path =
     (case import_exceptions w of
        Some e \<Rightarrow> (Inl e, fs)
      | None \<Rightarrow>
     (case gettempdir w of
        Inl e \<Rightarrow> (Inl e, fs)
      | Inr d \<Rightarrow>
     (let test_file = os_path_join d ''test.pdf'' in
     (case open_wb w test_file of
        Some e \<Rightarrow> (Inl e, fs)
      | None \<Rightarrow>
     (let fs1 = fs(test_file \<mapsto> []) in
     (case write_file w test_file test_pdf of
        Some e \<Rightarrow> (Inl e, fs1)
      | None \<Rightarrow>
     (let fs2 = fs1(test_file \<mapsto> test_pdf) in
     (case read_file w fs2 test_file of
        Inl e \<Rightarrow> (Inl e, fs2)
      | Inr content \<Rightarrow>
     (case convert_from_bytes w content 200 (Some (1, 1)) custom_path of
        Inl e \<Rightarrow> (Inl e, fs2)
      | Inr _ \<Rightarrow>
     (case remove_file w fs2 test_file of
        (Some e, fs3) \<Rightarrow> (Inl e, fs3)
      | (None, fs3) \<Rightarrow> (Inr True, fs3)))))))))))"

text \<open>\<open>try: ... except Exception: return False\<close>.\<close>

definition is_poppler_installed ::
  "('img, 's) world \<Rightarrow> files \<Rightarrow> pystr option \<Rightarrow> (exn + bool) \<times> files" where
  "is_poppler_installed w fs custom_path =
     (case poppler_probe w fs custom_path of
        (Inl e, fs') \<Rightarrow> (Inr False, fs')
      | (Inr b, fs') \<Rightarrow> (Inr b, fs'))"

section \<open>create_pdf_from_text\<close>

definition and_then :: "exn + 'a \<Rightarrow> ('a \<Rightarrow> exn + 'b) \<Rightarrow> exn + 'b" where
  "and_then r f = (case r of Inl e \<Rightarrow> Inl e | Inr x \<Rightarrow> f x)"

text \<open>A method call outside any \<open>try\<close>: its exception leaves the function.\<close>

fun returned :: "'s outcome \<Rightarrow> exn + 's" where
  "returned (Returns s) = Inr s"
| "returned (Raises e s) = Inl e"

definition placeholder :: pystr where
  "placeholder = lit ''[Content with special characters removed]''"

text \<open>
  The loop of lines 87 to 95.  The call in the \<open>try\<close> is caught; the call in the handler
  is not.
\<close>

fun render_lines :: "'s fpdf \<Rightarrow> pystr list \<Rightarrow> 's \<Rightarrow> exn + 's" where
  "render_lines lib [] pdf = Inr pdf"
| "render_lines lib (line # lines) pdf =
     (if length line > 0 then
        (case multi_cell lib pdf 0 5 line of
           Returns pdf' \<Rightarrow> render_lines lib lines pdf'
         | Raises e pdf' \<Rightarrow>
             (case multi_cell lib pdf' 0 5 placeholder of
                Returns pdf'' \<Rightarrow> render_lines lib lines pdf''
              | Raises e' pdf'' \<Rightarrow> Inl e'))
      else render_lines lib lines pdf)"

text \<open>Lines 73 to 83: the document, its first page, the fonts and the title.\<close>

definition begin_document :: "'s fpdf \<Rightarrow> pystr \<Rightarrow> exn + 's" where
  "begin_document lib title =
     and_then (FPDF lib) (\<lambda>pdf.
     and_then (returned (add_page lib pdf)) (\<lambda>pdf.
     and_then (returned (set_font lib pdf ''Arial'' [] 12)) (\<lambda>pdf.
     and_then (returned (set_font lib pdf ''Arial'' ''B'' 16)) (\<lambda>pdf.
     and_then (returned (cell lib pdf 200 10 title)) (\<lambda>pdf.
     and_then (returned (ln lib pdf 10)) (\<lambda>pdf.
     returned (set_font lib pdf ''Arial'' [] 12)))))))"

definition create_pdf_from_text :: "'s fpdf \<Rightarrow> pystr \<Rightarrow> pystr \<Rightarrow> exn + bytes" where
  "create_pdf_from_text lib text title =
     and_then (begin_document lib title) (\<lambda>pdf.
     and_then (render_lines lib (split_newline text) pdf) (\<lambda>pdf.
     and_then (output_S lib pdf) encode_latin1))"

section \<open>The pipeline\<close>

text \<open>The page-count probe of lines 114 to 119; its failure is only a warning.\<close>

definition page_count_probe :: "('img, 's) world \<Rightarrow> state \<Rightarrow> state" where
  "page_count_probe w st =
     (case fitz_open_len w (tmp_pdf_path w) of
        Inr page_count \<Rightarrow> st\<lparr>trace := trace st @ [Show Info (PdfHasPages page_count)]\<rparr>
      | Inl e \<Rightarrow> st\<lparr>trace := trace st @ [Show Warning (PageCountUnknown e)]\<rparr>)"

text \<open>\<open>page.extract_text() or ""\<close>.\<close>

definition or_empty :: "pystr option \<Rightarrow> pystr" where
  "or_empty r = (case r of None \<Rightarrow> [] | Some t \<Rightarrow> if t = [] then [] else t)"

text \<open>
  The loop of lines 127 to 130 over \<open>enumerate(pdf.pages)\<close>: \<open>i\<close> is the index of the next
  page and \<open>acc\<close> the value of \<open>extracted_text\<close>.  An exception leaves the loop; the
  handler that catches it resets the accumulator, so its value is not returned.
\<close>

fun native_pages :: "nat \<Rightarrow> (exn + pystr option) list \<Rightarrow> pystr \<Rightarrow> exn + pystr" where
  "native_pages i [] acc = Inr acc"
| "native_pages i (page # pages) acc =
     (case page of
        Inl e \<Rightarrow> Inl e
      | Inr r \<Rightarrow>
          (let page_text = or_empty r in
           if strip page_text \<noteq> [] then
             native_pages (i + 1) pages (acc @ marker (i + 1) @ page_text)
           else native_pages (i + 1) pages acc))"

text \<open>
  The body of the \<open>try\<close> of lines 126 to 133: the \<open>with\<close> block, whose exit closes the
  document and may raise in its turn, then the success message.
\<close>

definition native_extraction ::
  "('img, 's) world \<Rightarrow> pystr \<Rightarrow> exn + pystr \<times> event list" where
  "native_extraction w acc =
     (case pdfplumber_open w (tmp_pdf_path w) of
        OpenRaises e \<Rightarrow> Inl e
      | Opened pages closing \<Rightarrow>
          (case native_pages 0 pages acc of
             Inl e \<Rightarrow> (case closing of Some e' \<Rightarrow> Inl e' | None \<Rightarrow> Inl e)
           | Inr text \<Rightarrow>
               (case closing of
                  Some e' \<Rightarrow> Inl e'
                | None \<Rightarrow>
                    Inr (text,
                         if length (strip text) > 100 then [Show Success NativeSuccessful]
                         else []))))"

text \<open>Lines 122 to 136.\<close>

definition native_stage :: "config \<Rightarrow> ('img, 's) world \<Rightarrow> state \<Rightarrow> state" where
  "native_stage cfg w st =
     (if \<not> fallback_all_pages cfg then
        (case native_extraction w (extracted_text st) of
           Inr (text, shown) \<Rightarrow> st\<lparr>extracted_text := text, trace := trace st @ shown\<rparr>
         | Inl e \<Rightarrow>
             st\<lparr>extracted_text := [], trace := trace st @ [Show Warning (NativeError e)]\<rparr>)
      else st)"

text \<open>
  The loop of lines 169 to 176 over \<open>enumerate(images)\<close>: \<open>n\<close> is \<open>len(images)\<close>, \<open>i\<close> the
  index of the next image, and the pair is \<open>extracted_text\<close> with the trace so far.
\<close>

fun ocr_pages ::
  "('img \<Rightarrow> string \<Rightarrow> exn + pystr) \<Rightarrow> string \<Rightarrow> nat \<Rightarrow> nat \<Rightarrow> 'img list \<Rightarrow>
   pystr \<times> event list \<Rightarrow> pystr \<times> event list" where
  "ocr_pages ocr lang n i [] (acc, tr) = (acc, tr)"
| "ocr_pages ocr lang n i (img # images) (acc, tr) =
     (case ocr img lang of
        Inr text \<Rightarrow>
          ocr_pages ocr lang n (i + 1) images
            (acc @ marker (i + 1) @ text,
             tr @ [Progress (i + 1) n, Call (Ocr (i + 1)), Show Info (ProcessedPage (i + 1) n)])
      | Inl e \<Rightarrow>
          ocr_pages ocr lang n (i + 1) images
            (acc,
             tr @ [Progress (i + 1) n, Call (Ocr (i + 1)), Show Error (OcrPageError (i + 1) e)]))"

text \<open>\<open>poppler_path if poppler_path else None\<close>.\<close>

definition path_or_None :: "pystr \<Rightarrow> pystr option" where
  "path_or_None p = (if p \<noteq> [] then Some p else None)"

text \<open>
  Lines 139 to 181.  The first component is an exception that no handler of the script
  catches: the run ends there.
\<close>

definition ocr_stage ::
  "config \<Rightarrow> upload \<Rightarrow> ('img, 's) world \<Rightarrow> state \<Rightarrow> exn option \<times> state" where
  "ocr_stage cfg up w st =
     (if length (strip (extracted_text st)) < 100 \<or> fallback_all_pages cfg then
        (let st1 = st\<lparr>trace := trace st @ [Show Warning SwitchingToOcr, Call Preflight]\<rparr> in
         (case is_poppler_installed w (files st1) (path_or_None (poppler_path cfg)) of
            (Inl e, fs) \<Rightarrow> (Some e, st1\<lparr>files := fs\<rparr>)
          | (Inr poppler_installed, fs) \<Rightarrow>
              (let st2 = st1\<lparr>files := fs\<rparr> in
               if \<not> poppler_installed then
                 (None, st2\<lparr>trace := trace st2 @ [Show Error PopplerMissing]\<rparr>)
               else
                 (let st3 = st2\<lparr>extracted_text := [], trace := trace st2 @ [Call Rasterize]\<rparr> in
                  (case convert_from_bytes w (file_bytes up) (ocr_dpi cfg) None
                          (path_or_None (poppler_path cfg)) of
                     Inl e \<Rightarrow>
                       (None, st3\<lparr>trace := trace st3 @ [Show Error (OcrProcessingError e)]\<rparr>)
                   | Inr images \<Rightarrow>
                       (case ocr_pages (image_to_string w) (ocr_lang cfg) (length images) 0 images
                               (extracted_text st3,
                                trace st3 @ [Show Success (Converted (length images)),
                                             Progress 0 1]) of
                          (text, tr) \<Rightarrow>
                            (None, st3\<lparr>extracted_text := text,
                                       trace := tr @ [ProgressEmpty]\<rparr>)))))))
      else (None, st))"

text \<open>Lines 184 to 187: \<open>try: os.unlink(tmp_pdf_path)  except: pass\<close>.\<close>

definition cleanup :: "('img, 's) world \<Rightarrow> state \<Rightarrow> state" where
  "cleanup w st =
     (case remove_file w (files st) (tmp_pdf_path w) of
        (Some e, fs) \<Rightarrow> st\<lparr>trace := trace st @ [Call Unlink], files := fs\<rparr>
      | (None, fs) \<Rightarrow> st\<lparr>trace := trace st @ [Call Unlink], files := fs\<rparr>)"

text \<open>Lines 190 to 229.\<close>

definition present :: "upload \<Rightarrow> ('img, 's) world \<Rightarrow> state \<Rightarrow> state" where
  "present up w st =
     (if strip (extracted_text st) \<noteq> [] then
        st\<lparr>trace := trace st @
             [Show Success ExtractionComplete, TextArea (extracted_text st),
              DownloadText (extracted_text st)] @
             (case create_pdf_from_text (fpdf_lib w) (extracted_text st)
                     (lit ''Extracted from '' @ name up) of
                Inr pdf_bytes \<Rightarrow> [DownloadPdf pdf_bytes]
              | Inl e \<Rightarrow> [Show Error (PdfError e)]) @
             [Tips]\<rparr>
      else st\<lparr>trace := trace st @ [Show Error NothingExtracted, Tips]\<rparr>)"

text \<open>
  The \<open>if uploaded_file:\<close> block, lines 101 to 229, from the moment the transient copy
  has been written: \<open>fs\<close> holds the files that exist before the upload.  \<open>start\<close> is the
  state after lines 102 to 111, \<open>after_native\<close> the state when line 139 is reached.
\<close>

definition start :: "upload \<Rightarrow> ('img, 's) world \<Rightarrow> files \<Rightarrow> state" where
  "start up w fs =
     \<lparr>extracted_text = [], trace = [Show Info Processing],
      files = fs(tmp_pdf_path w \<mapsto> file_bytes up)\<rparr>"

definition after_native :: "config \<Rightarrow> upload \<Rightarrow> ('img, 's) world \<Rightarrow> files \<Rightarrow> state" where
  "after_native cfg up w fs = native_stage cfg w (page_count_probe w (start up w fs))"

definition run ::
  "config \<Rightarrow> upload \<Rightarrow> ('img, 's) world \<Rightarrow> files \<Rightarrow> exn option \<times> state" where
  "run cfg up w fs =
     (case ocr_stage cfg up w (after_native cfg up w fs) of
        (Some e, st) \<Rightarrow> (Some e, st)
      | (None, st) \<Rightarrow> (None, present up w (cleanup w st)))"

section \<open>Closed forms of the two loops\<close>

text \<open>
  These functions are not in main.py: they describe what the loops produce, and the
  lemmas below prove that the loops produce exactly that.  \<open>render\<close> writes a list of
  (page number, text) pairs the way both loops do, a marker before each text.
\<close>

definition render :: "(nat \<times> pystr) list \<Rightarrow> pystr" where
  "render kept = concat (map (\<lambda>(n, t). marker n @ t) kept)"

text \<open>The pages the native loop keeps, starting at index \<open>i\<close>, each with its number.\<close>

fun native_kept :: "nat \<Rightarrow> (exn + pystr option) list \<Rightarrow> (nat \<times> pystr) list" where
  "native_kept i [] = []"
| "native_kept i (page # pages) =
     (case page of
        Inr r \<Rightarrow> if strip (or_empty r) \<noteq> [] then [(i + 1, or_empty r)] else []
      | Inl e \<Rightarrow> []) @ native_kept (i + 1) pages"

text \<open>The pages the OCR loop keeps, and the events it adds to the trace.\<close>

fun ocr_kept ::
  "('img \<Rightarrow> string \<Rightarrow> exn + pystr) \<Rightarrow> string \<Rightarrow> nat \<Rightarrow> 'img list \<Rightarrow> (nat \<times> pystr) list" where
  "ocr_kept ocr lang i [] = []"
| "ocr_kept ocr lang i (img # images) =
     (case ocr img lang of Inr t \<Rightarrow> [(i + 1, t)] | Inl e \<Rightarrow> []) @ ocr_kept ocr lang (i + 1) images"

fun ocr_events ::
  "('img \<Rightarrow> string \<Rightarrow> exn + pystr) \<Rightarrow> string \<Rightarrow> nat \<Rightarrow> nat \<Rightarrow> 'img list \<Rightarrow> event list" where
  "ocr_events ocr lang n i [] = []"
| "ocr_events ocr lang n i (img # images) =
     [Progress (i + 1) n, Call (Ocr (i + 1)),
      (case ocr img lang of
         Inr t \<Rightarrow> Show Info (ProcessedPage (i + 1) n)
       | Inl e \<Rightarrow> Show Error (OcrPageError (i + 1) e))] @
     ocr_events ocr lang n (i + 1) images"

text \<open>
  The value the variable \<open>poppler_installed\<close> takes at line 143, when that line is
  reached, and the text the OCR branch (lines 159 to 178) produces from its empty
  accumulator.
\<close>

definition poppler_installed :: "config \<Rightarrow> upload \<Rightarrow> ('img, 's) world \<Rightarrow> files \<Rightarrow> bool" where
  "poppler_installed cfg up w fs \<longleftrightarrow>
     fst (is_poppler_installed w (files (after_native cfg up w fs))
            (path_or_None (poppler_path cfg))) = Inr True"

definition ocr_output :: "config \<Rightarrow> upload \<Rightarrow> ('img, 's) world \<Rightarrow> pystr" where
  "ocr_output cfg up w =
     (case convert_from_bytes w (file_bytes up) (ocr_dpi cfg) None
             (path_or_None (poppler_path cfg)) of
        Inl e \<Rightarrow> []
      | Inr images \<Rightarrow>
          fst (ocr_pages (image_to_string w) (ocr_lang cfg) (length images) 0 images ([], [])))"

text \<open>The events of the OCR branch after the call of \<open>convert_from_bytes\<close>.\<close>

definition ocr_branch_events :: "config \<Rightarrow> upload \<Rightarrow> ('img, 's) world \<Rightarrow> event list" where
  "ocr_branch_events cfg up w =
     (case convert_from_bytes w (file_bytes up) (ocr_dpi cfg) None
             (path_or_None (poppler_path cfg)) of
        Inl e \<Rightarrow> [Show Error (OcrProcessingError e)]
      | Inr images \<Rightarrow>
          [Show Success (Converted (length images)), Progress 0 1] @
          ocr_events (image_to_string w) (ocr_lang cfg) (length images) 0 images @
          [ProgressEmpty])"

section \<open>Concrete collaborators for examples\<close>

text \<open>
  The FPDF library is not part of the repository.  Line 97 calls \<open>encode\<close> on what
  \<open>output(dest="S")\<close> returns, so that value is a \<open>str\<close>: the library is PyFPDF 1.x.
  On Python 3 its \<open>cell\<close> and \<open>multi_cell\<close> accept any text and add it to the page, and
  \<open>output\<close> encodes the pages to latin-1, raising when a page holds a character beyond
  code point 255.  The document is the list of the texts added so far.
\<close>

definition demo_fpdf :: "pystr list fpdf" where
  "demo_fpdf =
     \<lparr>FPDF = Inr [],
      add_page = Returns,
      set_font = (\<lambda>pdf family style size. Returns pdf),
      cell = (\<lambda>pdf w h txt. Returns (pdf @ [txt])),
      ln = (\<lambda>pdf h. Returns pdf),
      multi_cell = (\<lambda>pdf w h txt. Returns (pdf @ [txt])),
      output_S = (\<lambda>pdf.
                if list_all (\<lambda>c. c < 256) (concat pdf) then Inr (lit ''%PDF-1.3'' @ concat pdf)
                else Inl (Exception ''UnicodeEncodeError''))\<rparr>"

text \<open>
  A world in which every call returns: the upload has one page whose text layer is
  \<open>Hi\<close>, rasterization gives one image (images are numbered), and OCR reads \<open>scan\<close>.
\<close>

definition demo_world :: "(nat, pystr list) world" where
  "demo_world =
     \<lparr>tmp_pdf_path = ''/tmp/tmpk3v9x2.pdf'',
      import_exceptions = None,
      gettempdir = Inr ''/tmp'',
      open_wb = (\<lambda>p. None),
      write_file = (\<lambda>p content. None),
      open_rb_read = (\<lambda>p. None),
      os_remove = (\<lambda>p. None),
      convert_from_bytes = (\<lambda>content dpi pages path. Inr [0]),
      fitz_open_len = (\<lambda>p. Inr 1),
      pdfplumber_open = (\<lambda>p. Opened [Inr (Some (lit ''Hi''))] None),
      image_to_string = (\<lambda>img lang. Inr (lit ''scan'')),
      fpdf_lib = demo_fpdf\<rparr>"

definition demo_config :: config where
  "demo_config = \<lparr>poppler_path = [], ocr_dpi = 300, ocr_lang = ''eng'', fallback_all_pages = False\<rparr>"

definition demo_upload :: upload where
  "demo_upload = \<lparr>name = lit ''a.pdf'', file_bytes = ''%PDF-1.4''\<rparr>"

text \<open>The same world without a usable Poppler: every rasterization raises.\<close>

definition no_poppler_world :: "(nat, pystr list) world" where
  "no_poppler_world =
     demo_world\<lparr>convert_from_bytes :=
       (\<lambda>content dpi pages path. Inl (Exception ''PDFInfoNotInstalledError''))\<rparr>"

text \<open>
  The same world for an upload whose single page has a text layer of 85 letters
  \<open>a\<close>: with the marker, the stripped accumulator has exactly 100 characters.
\<close>

definition hundred_world :: "(nat, pystr list) world" where
  "hundred_world =
     demo_world\<lparr>pdfplumber_open := (\<lambda>p. Opened [Inr (Some (replicate 85 97))] None)\<rparr>"

text \<open>
  Two OCR engines over numbered images: one that fails on image 1 only, and one that
  reads \<open>Hi\<close> on image 0 and a single space on every other image.
\<close>

definition flaky_ocr :: "nat \<Rightarrow> string \<Rightarrow> exn + pystr" where
  "flaky_ocr img lang = (if img = 1 then Inl (Exception ''TesseractError'') else Inr (lit ''ok''))"

definition blank_ocr :: "nat \<Rightarrow> string \<Rightarrow> exn + pystr" where
  "blank_ocr img lang = (if img = 0 then Inr (lit ''Hi'') else Inr [32])"

text \<open>
  The same world for an upload whose single page has a text layer of 101 letters \<open>a\<close>,
  and the settings with "Force OCR on all pages" ticked.
\<close>

definition long_world :: "(nat, pystr list) world" where
  "long_world =
     demo_world\<lparr>pdfplumber_open := (\<lambda>p. Opened [Inr (Some (replicate 101 97))] None)\<rparr>"

definition force_config :: config where
  "force_config = demo_config\<lparr>fallback_all_pages := True\<rparr>"

text \<open>The demo world on a system where deleting a file always raises.\<close>

definition undeletable_world :: "(nat, pystr list) world" where
  "undeletable_world = demo_world\<lparr>os_remove := (\<lambda>p. Some (Exception ''PermissionError''))\<rparr>"

section \<open>The loops and their closed forms\<close>

lemma render_Nil [simp]: "render [] = []"
  by (simp add: render_def)

lemma render_Cons [simp]: "render ((n, t) # kept) = marker n @ t @ render kept"
  by (simp add: render_def)

lemma render_append [simp]: "render (xs @ ys) = render xs @ render ys"
  by (simp add: render_def)

lemma strip_Nil [simp]: "strip [] = []"
  by (simp add: strip_def)

lemma or_empty_nonblank: "strip (or_empty r) \<noteq> [] \<Longrightarrow> t = or_empty r \<Longrightarrow> r = Some t"
  by (cases r) (simp_all add: or_empty_def)

lemma native_pages_kept:
  "native_pages i pages acc = Inr acc' \<Longrightarrow> acc' = acc @ render (native_kept i pages)"
proof (induction pages arbitrary: i acc)
  case Nil
  then show ?case by simp
next
  case (Cons page pages)
  show ?case
  proof (cases page)
    case (Inl e)
    with Cons.prems show ?thesis by simp
  next
    case (Inr r)
    show ?thesis
    proof (cases "strip (or_empty r) \<noteq> []")
      case True
      with Inr Cons.prems
      have "native_pages (i + 1) pages (acc @ marker (i + 1) @ or_empty r) = Inr acc'"
        by (simp add: Let_def)
      from Cons.IH [OF this] Inr True show ?thesis by simp
    next
      case False
      with Inr Cons.prems have "native_pages (i + 1) pages acc = Inr acc'"
        by (simp add: Let_def)
      from Cons.IH [OF this] Inr False show ?thesis by simp
    qed
  qed
qed

lemma native_kept_bounds:
  "(n, t) \<in> set (native_kept i pages) \<Longrightarrow>
     i < n \<and> n \<le> i + length pages \<and> strip t \<noteq> [] \<and> pages ! (n - 1 - i) = Inr (Some t)"
proof (induction pages arbitrary: i)
  case Nil
  then show ?case by simp
next
  case (Cons page pages)
  from Cons.prems consider
    (here) r where "page = Inr r" "strip (or_empty r) \<noteq> []" "n = i + 1" "t = or_empty r"
    | (later) "(n, t) \<in> set (native_kept (i + 1) pages)"
    by (auto split: sum.splits if_splits)
  then show ?case
  proof cases
    case here
    from here(2,4) have r: "r = Some t"
      by (rule or_empty_nonblank)
    from here(2,4) have "strip t \<noteq> []" by simp
    with r here(1,3) show ?thesis by simp
  next
    case later
    from Cons.IH [OF later] have b: "i + 1 < n" "n \<le> i + 1 + length pages" "strip t \<noteq> []"
      and at: "pages ! (n - 1 - (i + 1)) = Inr (Some t)" by simp_all
    from b have "n - 1 - i = Suc (n - 1 - (i + 1))" by arith
    with b at show ?thesis by simp
  qed
qed

lemma native_kept_sorted: "sorted_wrt (<) (map fst (native_kept i pages))"
proof (induction pages arbitrary: i)
  case Nil
  then show ?case by simp
next
  case (Cons page pages)
  have "\<forall>x \<in> set (native_kept (i + 1) pages). i + 1 < fst x"
    using native_kept_bounds [of _ _ "i + 1" pages] by auto
  with Cons.IH [of "i + 1"] show ?case
    by (auto simp: sorted_wrt_append split: sum.splits)
qed

lemma ocr_pages_eq:
  "ocr_pages ocr lang n i images (acc, tr) =
     (acc @ render (ocr_kept ocr lang i images), tr @ ocr_events ocr lang n i images)"
  by (induction images arbitrary: i acc tr) (auto split: sum.splits)

lemma ocr_kept_bounds:
  "(k, t) \<in> set (ocr_kept ocr lang i images) \<Longrightarrow>
     i < k \<and> k \<le> i + length images \<and> ocr (images ! (k - 1 - i)) lang = Inr t"
proof (induction images arbitrary: i)
  case Nil
  then show ?case by simp
next
  case (Cons img images)
  from Cons.prems consider
    (here) "ocr img lang = Inr t" "k = i + 1"
    | (later) "(k, t) \<in> set (ocr_kept ocr lang (i + 1) images)"
    by (auto split: sum.splits)
  then show ?case
  proof cases
    case here
    then show ?thesis by simp
  next
    case later
    from Cons.IH [OF later] have b: "i + 1 < k" "k \<le> i + 1 + length images"
      and at: "ocr (images ! (k - 1 - (i + 1))) lang = Inr t" by simp_all
    from b have "k - 1 - i = Suc (k - 1 - (i + 1))" by arith
    with b at show ?thesis by simp
  qed
qed

lemma ocr_kept_sorted: "sorted_wrt (<) (map fst (ocr_kept ocr lang i images))"
proof (induction images arbitrary: i)
  case Nil
  then show ?case by simp
next
  case (Cons img images)
  have "\<forall>x \<in> set (ocr_kept ocr lang (i + 1) images). i + 1 < fst x"
    using ocr_kept_bounds [of _ _ ocr lang "i + 1" images] by auto
  with Cons.IH [of "i + 1"] show ?case
    by (auto simp: sorted_wrt_append split: sum.splits)
qed

lemma native_pages_append:
  "native_pages i (xs @ ys) acc =
     and_then (native_pages i xs acc) (native_pages (i + length xs) ys)"
  by (induction xs arbitrary: i acc) (simp_all add: and_then_def Let_def split: sum.splits)

lemma ocr_pages_append:
  "ocr_pages ocr lang n i (xs @ ys) (acc, tr) =
     ocr_pages ocr lang n (i + length xs) ys (ocr_pages ocr lang n i xs (acc, tr))"
  by (induction xs arbitrary: i acc tr) (simp_all split: sum.splits)

lemma ocr_calls_in_events:
  "[k. Call (Ocr k) \<leftarrow> ocr_events ocr lang n i images] = [i + 1 ..< i + 1 + length images]"
proof (induction images arbitrary: i)
  case Nil
  then show ?case by simp
next
  case (Cons img images)
  have "[i + 1 ..< i + 1 + length (img # images)] = (i + 1) # [i + 1 + 1 ..< i + 1 + 1 + length images]"
    by (simp add: upt_rec)
  with Cons.IH [of "i + 1"] show ?case by (simp split: sum.splits)
qed

lemma strip_Hi: "strip (lit ''Hi'') \<noteq> []" "strip (lit ''yo'') \<noteq> []"
  by (simp_all add: strip_def lit_def isspace_def)

section \<open>The pipeline, stage by stage\<close>

lemma is_poppler_installed_returns:
  "\<exists>b fs'. is_poppler_installed w fs p = (Inr b, fs')"
  by (cases "poppler_probe w fs p") (auto simp: is_poppler_installed_def split: sum.splits)

lemma ocr_events_calls:
  "Call c \<in> set (ocr_events ocr lang n i images) \<Longrightarrow> \<exists>k. c = Ocr k"
  by (induction images arbitrary: i) (auto split: sum.splits)

lemma ocr_stage_eq:
  "ocr_stage cfg up w st =
     (None,
      if length (strip (extracted_text st)) < 100 \<or> fallback_all_pages cfg then
        (if fst (is_poppler_installed w (files st) (path_or_None (poppler_path cfg))) = Inr True then
           st\<lparr>extracted_text := ocr_output cfg up w,
              trace := trace st @ [Show Warning SwitchingToOcr, Call Preflight, Call Rasterize] @
                       ocr_branch_events cfg up w,
              files := snd (is_poppler_installed w (files st) (path_or_None (poppler_path cfg)))\<rparr>
         else
           st\<lparr>trace := trace st @ [Show Warning SwitchingToOcr, Call Preflight,
                                    Show Error PopplerMissing],
              files := snd (is_poppler_installed w (files st) (path_or_None (poppler_path cfg)))\<rparr>)
      else st)"
proof -
  obtain b fs' where p: "is_poppler_installed w (files st) (path_or_None (poppler_path cfg)) = (Inr b, fs')"
    using is_poppler_installed_returns by blast
  show ?thesis
    by (simp add: ocr_stage_def p Let_def ocr_output_def ocr_branch_events_def ocr_pages_eq
        split: sum.splits)
qed


lemma trace_after_native_no_calls: "Call c \<notin> set (trace (after_native cfg up w fs))"
  by (simp add: after_native_def native_stage_def page_count_probe_def start_def
      native_extraction_def split: sum.splits plumber.splits option.splits prod.splits)

lemma run_final:
  "run cfg up w fs =
     (None, present up w (cleanup w (snd (ocr_stage cfg up w (after_native cfg up w fs)))))"
  by (simp add: run_def ocr_stage_eq)

lemma extracted_text_present [simp]: "extracted_text (present up w st) = extracted_text st"
  by (simp add: present_def)

lemma extracted_text_cleanup [simp]: "extracted_text (cleanup w st) = extracted_text st"
  by (simp add: cleanup_def split: prod.splits option.splits)

lemma trace_cleanup [simp]: "trace (cleanup w st) = trace st @ [Call Unlink]"
  by (simp add: cleanup_def split: prod.splits option.splits)

lemma trace_present:
  "\<exists>shown. trace (present up w st) = trace st @ shown @ [Tips] \<and>
     (\<forall>c. Call c \<notin> set shown) \<and> (\<forall>l. Show l PopplerMissing \<notin> set shown) \<and>
     (\<forall>t. TextArea t \<in> set shown \<longleftrightarrow> strip (extracted_text st) \<noteq> [] \<and> t = extracted_text st)"
  by (auto simp: present_def split: sum.splits)

lemma ocr_branch_events_calls:
  "Call c \<in> set (ocr_branch_events cfg up w) \<Longrightarrow> \<exists>k. c = Ocr k"
  by (auto simp: ocr_branch_events_def dest: ocr_events_calls split: sum.splits)

lemma extracted_text_run:
  "extracted_text (snd (run cfg up w fs)) =
     (if (length (strip (extracted_text (after_native cfg up w fs))) < 100 \<or> fallback_all_pages cfg) \<and>
         poppler_installed cfg up w fs
      then ocr_output cfg up w
      else extracted_text (after_native cfg up w fs))"
  by (simp add: run_final ocr_stage_eq poppler_installed_def)

lemma trace_ocr_stage:
  "trace (snd (ocr_stage cfg up w (after_native cfg up w fs))) =
     trace (after_native cfg up w fs) @
     (if length (strip (extracted_text (after_native cfg up w fs))) < 100 \<or> fallback_all_pages cfg then
        [Show Warning SwitchingToOcr, Call Preflight] @
        (if poppler_installed cfg up w fs then Call Rasterize # ocr_branch_events cfg up w
         else [Show Error PopplerMissing])
      else [])"
  by (simp add: ocr_stage_eq poppler_installed_def)

lemma trace_run:
  "\<exists>shown. trace (snd (run cfg up w fs)) =
     (trace (after_native cfg up w fs) @
      (if length (strip (extracted_text (after_native cfg up w fs))) < 100 \<or> fallback_all_pages cfg then
         [Show Warning SwitchingToOcr, Call Preflight] @
         (if poppler_installed cfg up w fs then Call Rasterize # ocr_branch_events cfg up w
          else [Show Error PopplerMissing])
       else [])) @
     [Call Unlink] @ shown @ [Tips] \<and>
     (\<forall>c. Call c \<notin> set shown) \<and> (\<forall>l. Show l PopplerMissing \<notin> set shown) \<and>
     (\<forall>t. TextArea t \<in> set shown \<longleftrightarrow>
          strip (extracted_text (snd (run cfg up w fs))) \<noteq> [] \<and> t = extracted_text (snd (run cfg up w fs)))"
proof -
  let ?st = "cleanup w (snd (ocr_stage cfg up w (after_native cfg up w fs)))"
  obtain shown where s: "trace (present up w ?st) = trace ?st @ shown @ [Tips]"
     "\<forall>c. Call c \<notin> set shown" "\<forall>l. Show l PopplerMissing \<notin> set shown"
     "\<forall>t. TextArea t \<in> set shown \<longleftrightarrow> strip (extracted_text ?st) \<noteq> [] \<and> t = extracted_text ?st"
    using trace_present [of up w ?st] by blast
  have t: "extracted_text (snd (run cfg up w fs)) = extracted_text ?st"
    by (simp only: run_final snd_conv extracted_text_present)
  have "trace (snd (run cfg up w fs)) =
     (trace (after_native cfg up w fs) @
      (if length (strip (extracted_text (after_native cfg up w fs))) < 100 \<or> fallback_all_pages cfg then
         [Show Warning SwitchingToOcr, Call Preflight] @
         (if poppler_installed cfg up w fs then Call Rasterize # ocr_branch_events cfg up w
          else [Show Error PopplerMissing])
       else [])) @
     [Call Unlink] @ shown @ [Tips]"
    by (simp only: run_final snd_conv s(1) trace_cleanup trace_ocr_stage append_assoc)
  with s(2,3,4) t show ?thesis by metis
qed


lemma after_native_forced:
  "fallback_all_pages cfg \<Longrightarrow> extracted_text (after_native cfg up w fs) = []"
  by (simp add: after_native_def native_stage_def page_count_probe_def start_def split: sum.splits)

lemma after_native_raised:
  "native_extraction w [] = Inl e \<Longrightarrow> extracted_text (after_native cfg up w fs) = []"
  by (simp add: after_native_def native_stage_def page_count_probe_def start_def split: sum.splits)

lemma after_native_one_page:
  "\<not> fallback_all_pages cfg \<Longrightarrow> pdfplumber_open w (tmp_pdf_path w) = Opened [Inr (Some t)] None \<Longrightarrow>
   strip t \<noteq> [] \<Longrightarrow> extracted_text (after_native cfg up w fs) = marker 1 @ t"
  by (auto simp: after_native_def native_stage_def page_count_probe_def start_def
      native_extraction_def or_empty_def split: sum.splits)

lemma marker_1: "marker (Suc 0) = [10, 45, 45, 45, 32, 80, 97, 103, 101, 32, 49, 32, 45, 45, 45, 10]"
  by (simp add: marker_def lit_def str_nat.simps)

lemma strip_replicate: "strip (replicate n 97) = replicate n 97"
proof -
  have "dropWhile isspace (replicate n 97) = replicate n 97"
    by (cases n) (simp_all add: isspace_def)
  then show ?thesis by (simp add: strip_def)
qed

lemma strip_marker_1: "\<not> isspace (last t) \<Longrightarrow> t \<noteq> [] \<Longrightarrow> length (strip (marker (Suc 0) @ t)) = 15 + length t"
proof -
  assume a: "\<not> isspace (last t)" "t \<noteq> []"
  then obtain u c where t: "t = u @ [c]" by (metis append_butlast_last_id)
  with a have c: "\<not> isspace c" by simp
  have "dropWhile isspace (marker (Suc 0) @ t) = [45, 45, 45, 32, 80, 97, 103, 101, 32, 49, 32, 45, 45, 45, 10] @ t"
    by (simp add: marker_1 isspace_def)
  then show ?thesis using c by (simp add: strip_def t)
qed

lemma demo_texts:
  "extracted_text (after_native demo_config demo_upload demo_world fs) = marker 1 @ lit ''Hi''"
  "extracted_text (after_native demo_config demo_upload no_poppler_world fs) = marker 1 @ lit ''Hi''"
  "extracted_text (after_native demo_config demo_upload hundred_world fs) = marker 1 @ replicate 85 97"
  "extracted_text (after_native demo_config demo_upload long_world fs) = marker 1 @ replicate 101 97"
  by (simp_all add: after_native_one_page demo_config_def demo_world_def no_poppler_world_def
      hundred_world_def long_world_def strip_Hi strip_replicate)

lemma demo_lengths:
  "length (strip (marker (Suc 0) @ lit ''Hi'')) = 17"
  "length (strip (marker (Suc 0) @ replicate 85 97)) = 100"
  "length (strip (marker (Suc 0) @ replicate 101 97)) = 116"
  by (simp_all add: strip_marker_1 isspace_def lit_def)

lemma demo_preflight:
  "poppler_installed cfg up demo_world fs"
  "\<not> poppler_installed cfg up no_poppler_world fs"
  "poppler_installed cfg up hundred_world fs"
  "poppler_installed cfg up long_world fs"
  by (simp_all add: poppler_installed_def is_poppler_installed_def poppler_probe_def read_file_def
      remove_file_def demo_world_def no_poppler_world_def hundred_world_def long_world_def)

lemma demo_ocr_output:
  "ocr_output cfg up demo_world = marker 1 @ lit ''scan''"
  by (simp add: ocr_output_def demo_world_def)


lemma demo_traces:
  "trace (after_native demo_config demo_upload hundred_world fs) =
     [Show Info Processing, Show Info (PdfHasPages 1)]"
  by (simp add: after_native_def native_stage_def page_count_probe_def start_def
      native_extraction_def or_empty_def demo_config_def hundred_world_def demo_world_def
      strip_replicate demo_lengths)

lemma files_run:
  "os_remove w (tmp_pdf_path w) = None \<Longrightarrow> files (snd (run cfg up w fs)) (tmp_pdf_path w) = None"
  by (simp add: run_final present_def cleanup_def remove_file_def split: option.splits)

section \<open>Rendering and encoding\<close>

lemma of_char_less_256: "of_char c < (256::nat)"
proof -
  have "(of_char c :: nat) mod 256 < 256" by simp
  then show ?thesis by (simp only: of_char_mod_256)
qed

lemma encode_latin1_lit: "encode_latin1 (lit s) = Inr s"
  by (simp add: encode_latin1_def lit_def list_all_iff of_char_less_256 comp_def)

lemma lit_append: "lit a @ lit b = lit (a @ b)"
  by (simp add: lit_def)

lemma list_all_lit: "list_all (\<lambda>c. c < 256) (lit s)"
  by (simp add: lit_def list_all_iff of_char_less_256)

section \<open>When the fallback starts\<close>

text \<open>
  The preflight is called exactly when the stripped native text has fewer than 100
  characters or OCR is forced, and every rasterization or OCR call of a run comes after
  the preflight call.
\<close>

lemma preflight_called_iff:
  "Call Preflight \<in> set (trace (snd (run cfg up w fs))) \<longleftrightarrow>
     length (strip (extracted_text (after_native cfg up w fs))) < 100 \<or> fallback_all_pages cfg"
proof -
  obtain shown where tr: "trace (snd (run cfg up w fs)) =
     (trace (after_native cfg up w fs) @
      (if length (strip (extracted_text (after_native cfg up w fs))) < 100 \<or> fallback_all_pages cfg then
         [Show Warning SwitchingToOcr, Call Preflight] @
         (if poppler_installed cfg up w fs then Call Rasterize # ocr_branch_events cfg up w
          else [Show Error PopplerMissing])
       else [])) @
     [Call Unlink] @ shown @ [Tips]"
    and sh: "\<forall>c. Call c \<notin> set shown"
    using trace_run [of cfg up w fs] by blast
  have nc: "\<And>c. Call c \<notin> set (trace (after_native cfg up w fs))"
    by (rule trace_after_native_no_calls)
  show ?thesis
    using nc sh by (auto simp: tr)
qed

lemma prefix_before_first:
  "xs @ x # ys = a @ b \<Longrightarrow> x \<notin> set a \<Longrightarrow> \<exists>mid. xs = a @ mid"
proof (induction a arbitrary: xs)
  case Nil
  then show ?case by simp
next
  case (Cons y a)
  then show ?case by (cases xs) auto
qed

lemma preflight_before_ocr:
  assumes "trace (snd (run cfg up w fs)) = earlier @ Call c # later" and "c = Rasterize \<or> c = Ocr k"
  shows "Call Preflight \<in> set earlier"
proof -
  obtain shown where tr: "trace (snd (run cfg up w fs)) =
     (trace (after_native cfg up w fs) @
      (if length (strip (extracted_text (after_native cfg up w fs))) < 100 \<or> fallback_all_pages cfg then
         [Show Warning SwitchingToOcr, Call Preflight] @
         (if poppler_installed cfg up w fs then Call Rasterize # ocr_branch_events cfg up w
          else [Show Error PopplerMissing])
       else [])) @
     [Call Unlink] @ shown @ [Tips]"
    and sh: "\<forall>c. Call c \<notin> set shown"
    using trace_run [of cfg up w fs] by blast
  have nc: "\<And>c. Call c \<notin> set (trace (after_native cfg up w fs))"
    by (rule trace_after_native_no_calls)
  let ?a = "trace (after_native cfg up w fs) @ [Show Warning SwitchingToOcr, Call Preflight]"
  from assms(2) have cu: "c \<noteq> Unlink" "c \<noteq> Preflight" by auto
  have "Call c \<in> set (trace (snd (run cfg up w fs)))"
    by (simp add: assms(1))
  with nc sh cu have on: "(length (strip (extracted_text (after_native cfg up w fs))) < 100 \<or> fallback_all_pages cfg)
      \<and> poppler_installed cfg up w fs"
    by (auto simp: tr split: if_splits)
  then have full: "trace (snd (run cfg up w fs)) =
      ?a @ (Call Rasterize # ocr_branch_events cfg up w @ [Call Unlink] @ shown @ [Tips])"
    by (simp add: tr)
  have "Call c \<notin> set ?a" using nc cu(2) by simp
  with assms(1) full obtain mid where "earlier = ?a @ mid"
    using prefix_before_first [of earlier "Call c" later ?a] by metis
  then show ?thesis by simp
qed

section \<open>The rasterization preflight\<close>

text \<open>
  Claim C7.  \<open>is_poppler_installed\<close> is total: for every world, every file system and
  every path argument it returns a boolean and never an exception.  The boolean is
  \<open>True\<close> exactly when every statement of the probe returned, among them the
  rasterization of the one-page test document, so \<open>True\<close> is returned only if that
  rasterization succeeds, and an exception raised by any statement of the probe gives
  \<open>False\<close>.
\<close>

theorem is_poppler_installed_total:
  "fst (is_poppler_installed w fs custom_path) =
     Inr (import_exceptions w = None \<and>
          (\<exists>d. gettempdir w = Inr d \<and>
               open_wb w (os_path_join d ''test.pdf'') = None \<and>
               write_file w (os_path_join d ''test.pdf'') test_pdf = None \<and>
               open_rb_read w (os_path_join d ''test.pdf'') = None \<and>
               (\<exists>images. convert_from_bytes w test_pdf 200 (Some (1, 1)) custom_path = Inr images) \<and>
               os_remove w (os_path_join d ''test.pdf'') = None))"
  by (auto simp: is_poppler_installed_def poppler_probe_def read_file_def remove_file_def Let_def
      split: option.splits sum.splits prod.splits)

text \<open>
  The theorem at two worlds: one where every call returns, one where rasterization
  raises.
\<close>

theorem is_poppler_installed_total_witness:
  "fst (is_poppler_installed demo_world Map.empty None) = Inr True \<and>
   fst (is_poppler_installed no_poppler_world Map.empty None) = Inr False"
  using is_poppler_installed_total [of demo_world Map.empty None]
        is_poppler_installed_total [of no_poppler_world Map.empty None]
  by (simp add: demo_world_def no_poppler_world_def)

text \<open>
  Claim C9 says that the preflight deletes the test document it wrote on its failure
  outcome as on its success outcome.  \<open>os.remove\<close> is the last statement of the \<open>try\<close>
  block, so it is skipped when an earlier statement raises: where rasterization raises
  (Poppler is missing), the preflight returns \<open>False\<close> and the file
  \<open>/tmp/test.pdf\<close> is still there, with the content written.
\<close>

theorem preflight_failure_leaves_test_file:
  "is_poppler_installed no_poppler_world Map.empty None =
     (Inr False, [''/tmp/test.pdf'' \<mapsto> test_pdf])"
  by (simp add: is_poppler_installed_def poppler_probe_def read_file_def remove_file_def
      no_poppler_world_def demo_world_def os_path_join_def)

section \<open>Page markers and the two loops\<close>

text \<open>
  Claim C5.  In the text accumulated by either loop, started as the script starts it
  (index 0, empty accumulator), the markers are those of a list of kept pages: the text
  is the concatenation, over that list, of the marker \<open>--- Page n ---\<close> followed by the
  text of page \<open>n\<close>, where \<open>n\<close> counts the source pages from 1 (the kept text is the
  text of the page at position \<open>n - 1\<close>), and the page numbers are strictly ascending.
  For the native loop this is stated for a loop that ends without an exception (an
  exception discards the accumulator).
\<close>

theorem page_markers_ascending:
  assumes "native_pages 0 pages [] = Inr text"
  shows "(\<exists>kept. text = concat (map (\<lambda>(n, t). marker n @ t) kept) \<and>
            sorted_wrt (<) (map fst kept) \<and>
            (\<forall>(n, t) \<in> set kept. 1 \<le> n \<and> n \<le> length pages \<and> pages ! (n - 1) = Inr (Some t))) \<and>
         (\<exists>kept. fst (ocr_pages ocr lang (length images) 0 images ([], tr)) =
                   concat (map (\<lambda>(n, t). marker n @ t) kept) \<and>
            sorted_wrt (<) (map fst kept) \<and>
            (\<forall>(n, t) \<in> set kept. 1 \<le> n \<and> n \<le> length images \<and>
                                 ocr (images ! (n - 1)) lang = Inr t))"
proof
  have "text = render (native_kept 0 pages)"
    using native_pages_kept [OF assms] by simp
  moreover have "\<forall>(n, t) \<in> set (native_kept 0 pages).
      1 \<le> n \<and> n \<le> length pages \<and> pages ! (n - 1) = Inr (Some t)"
    using native_kept_bounds [of _ _ 0 pages] by fastforce
  ultimately show "\<exists>kept. text = concat (map (\<lambda>(n, t). marker n @ t) kept) \<and>
            sorted_wrt (<) (map fst kept) \<and>
            (\<forall>(n, t) \<in> set kept. 1 \<le> n \<and> n \<le> length pages \<and> pages ! (n - 1) = Inr (Some t))"
    using native_kept_sorted [of 0 pages] unfolding render_def by blast
next
  have "fst (ocr_pages ocr lang (length images) 0 images ([], tr)) =
          render (ocr_kept ocr lang 0 images)"
    by (simp add: ocr_pages_eq)
  moreover have "\<forall>(n, t) \<in> set (ocr_kept ocr lang 0 images).
      1 \<le> n \<and> n \<le> length images \<and> ocr (images ! (n - 1)) lang = Inr t"
    using ocr_kept_bounds [of _ _ ocr lang 0 images] by fastforce
  ultimately show "\<exists>kept. fst (ocr_pages ocr lang (length images) 0 images ([], tr)) =
                   concat (map (\<lambda>(n, t). marker n @ t) kept) \<and>
            sorted_wrt (<) (map fst kept) \<and>
            (\<forall>(n, t) \<in> set kept. 1 \<le> n \<and> n \<le> length images \<and>
                                 ocr (images ! (n - 1)) lang = Inr t)"
    using ocr_kept_sorted [of ocr lang 0 images] unfolding render_def by blast
qed

text \<open>
  An upload of three pages whose second page has no text layer: the markers are those
  of pages 1 and 3.
\<close>

theorem page_markers_ascending_witness:
  "native_pages 0 [Inr (Some (lit ''Hi'')), Inr None, Inr (Some (lit ''yo''))] [] =
     Inr (marker 1 @ lit ''Hi'' @ marker 3 @ lit ''yo'') \<and>
   (\<exists>kept. marker 1 @ lit ''Hi'' @ marker 3 @ lit ''yo'' =
             concat (map (\<lambda>(n, t). marker n @ t) kept) \<and>
           sorted_wrt (<) (map fst kept) \<and>
           (\<forall>(n, t) \<in> set kept. 1 \<le> n \<and> n \<le> 3 \<and>
              [Inr (Some (lit ''Hi'')), Inr None, Inr (Some (lit ''yo''))] ! (n - 1) =
                (Inr (Some t) :: exn + pystr option)))"
proof -
  have h: "native_pages 0 [Inr (Some (lit ''Hi'')), Inr None, Inr (Some (lit ''yo''))] [] =
     Inr (marker 1 @ lit ''Hi'' @ marker 3 @ lit ''yo'')"
    by (simp add: or_empty_def strip_Hi numeral_3_eq_3)
  have c: "\<exists>kept. marker 1 @ lit ''Hi'' @ marker 3 @ lit ''yo'' =
             concat (map (\<lambda>(n, t). marker n @ t) kept) \<and>
           sorted_wrt (<) (map fst kept) \<and>
           (\<forall>(n, t) \<in> set kept. 1 \<le> n \<and> n \<le> 3 \<and>
              [Inr (Some (lit ''Hi'')), Inr None, Inr (Some (lit ''yo''))] ! (n - 1) =
                (Inr (Some t) :: exn + pystr option))"
    using page_markers_ascending [OF h, of flaky_ocr "[]" "[]" "[]", THEN conjunct1]
    by (simp add: numeral_3_eq_3)
  from h c show ?thesis by (rule conjI)
qed

text \<open>
  Claim C6.  When OCR raises on one image, in any position of the list of images: the
  text accumulated from the images before it is left as it is, the error is reported
  with the number of that page, and the loop goes on with the images after it.  Text
  accumulated earlier is only ever extended, and the OCR calls made are those of pages
  \<open>i + 1\<close> up to the last one, each once and in order.
\<close>

theorem ocr_page_failure_is_local:
  assumes "ocr img lang = Inl e"
  shows "ocr_pages ocr lang n i (pre @ img # rest) (acc, tr) =
           (case ocr_pages ocr lang n i pre (acc, tr) of
              (acc1, tr1) \<Rightarrow>
                ocr_pages ocr lang n (i + length pre + 1) rest
                  (acc1, tr1 @ [Progress (i + length pre + 1) n, Call (Ocr (i + length pre + 1)),
                                Show Error (OcrPageError (i + length pre + 1) e)])) \<and>
         (\<exists>more. fst (ocr_pages ocr lang n i (pre @ img # rest) (acc, tr)) =
                    fst (ocr_pages ocr lang n i pre (acc, tr)) @ more) \<and>
         (\<exists>evs. snd (ocr_pages ocr lang n i (pre @ img # rest) (acc, tr)) = tr @ evs \<and>
                [k. Call (Ocr k) \<leftarrow> evs] = [i + 1 ..< i + 1 + length (pre @ img # rest)])"
proof (intro conjI)
  show "ocr_pages ocr lang n i (pre @ img # rest) (acc, tr) =
           (case ocr_pages ocr lang n i pre (acc, tr) of
              (acc1, tr1) \<Rightarrow>
                ocr_pages ocr lang n (i + length pre + 1) rest
                  (acc1, tr1 @ [Progress (i + length pre + 1) n, Call (Ocr (i + length pre + 1)),
                                Show Error (OcrPageError (i + length pre + 1) e)]))"
    using assms by (simp add: ocr_pages_append split: prod.splits)
  have "ocr_pages ocr lang n i (pre @ img # rest) (acc, tr) =
          ocr_pages ocr lang n (i + length pre) (img # rest) (ocr_pages ocr lang n i pre (acc, tr))"
    by (rule ocr_pages_append)
  then show "\<exists>more. fst (ocr_pages ocr lang n i (pre @ img # rest) (acc, tr)) =
                    fst (ocr_pages ocr lang n i pre (acc, tr)) @ more"
    by (simp add: ocr_pages_eq)
  show "\<exists>evs. snd (ocr_pages ocr lang n i (pre @ img # rest) (acc, tr)) = tr @ evs \<and>
                [k. Call (Ocr k) \<leftarrow> evs] = [i + 1 ..< i + 1 + length (pre @ img # rest)]"
    using ocr_calls_in_events [of ocr lang n i "pre @ img # rest"]
    by (simp only: ocr_pages_eq snd_conv) blast
qed

text \<open>Three images, OCR failing on the second: pages 1 and 3 are read, page 2 is reported.\<close>

theorem ocr_page_failure_is_local_witness:
  "flaky_ocr 1 ''eng'' = Inl (Exception ''TesseractError'') \<and>
   ocr_pages flaky_ocr ''eng'' 3 0 [0, 1, 2] ([], []) =
     (marker 1 @ lit ''ok'' @ marker 3 @ lit ''ok'',
      [Progress 1 3, Call (Ocr 1), Show Info (ProcessedPage 1 3),
       Progress 2 3, Call (Ocr 2), Show Error (OcrPageError 2 (Exception ''TesseractError'')),
       Progress 3 3, Call (Ocr 3), Show Info (ProcessedPage 3 3)])"
proof -
  have h: "flaky_ocr 1 ''eng'' = Inl (Exception ''TesseractError'')"
    by (simp add: flaky_ocr_def)
  have c: "ocr_pages flaky_ocr ''eng'' 3 0 [0, 1, 2] ([], []) =
     (marker 1 @ lit ''ok'' @ marker 3 @ lit ''ok'',
      [Progress 1 3, Call (Ocr 1), Show Info (ProcessedPage 1 3),
       Progress 2 3, Call (Ocr 2), Show Error (OcrPageError 2 (Exception ''TesseractError'')),
       Progress 3 3, Call (Ocr 3), Show Info (ProcessedPage 3 3)])"
    using h ocr_page_failure_is_local [where ocr = flaky_ocr and img = 1 and lang = "''eng''"
        and e = "Exception ''TesseractError''" and n = 3 and i = 0 and pre = "[0]"
        and rest = "[2]" and acc = "[]" and tr = "[]", THEN conjunct1]
    by (simp add: flaky_ocr_def numeral_3_eq_3 numeral_2_eq_2)
  from h c show ?thesis by (rule conjI)
qed

text \<open>
  Claim C10.  A page whose text layer is empty or only whitespace leaves the native
  accumulator as it was, without a marker, and the loop continues with the next page.
  An image whose OCR call returns the text \<open>t\<close> adds the marker and \<open>t\<close> whatever \<open>t\<close>
  is, so also when \<open>t\<close> is empty or only whitespace.
\<close>

theorem empty_page_asymmetry:
  assumes "strip (or_empty r) = []" and "ocr img lang = Inr t"
  shows "native_pages i (pages1 @ Inr r # pages2) acc =
           and_then (native_pages i pages1 acc) (native_pages (i + length pages1 + 1) pages2) \<and>
         ocr_pages ocr lang n i (images1 @ img # images2) (acc, tr) =
           (case ocr_pages ocr lang n i images1 (acc, tr) of
              (acc1, tr1) \<Rightarrow>
                ocr_pages ocr lang n (i + length images1 + 1) images2
                  (acc1 @ marker (i + length images1 + 1) @ t,
                   tr1 @ [Progress (i + length images1 + 1) n, Call (Ocr (i + length images1 + 1)),
                          Show Info (ProcessedPage (i + length images1 + 1) n)]))"
proof
  show "native_pages i (pages1 @ Inr r # pages2) acc =
           and_then (native_pages i pages1 acc) (native_pages (i + length pages1 + 1) pages2)"
    using assms(1) by (simp add: native_pages_append and_then_def Let_def split: sum.splits)
  show "ocr_pages ocr lang n i (images1 @ img # images2) (acc, tr) =
           (case ocr_pages ocr lang n i images1 (acc, tr) of
              (acc1, tr1) \<Rightarrow>
                ocr_pages ocr lang n (i + length images1 + 1) images2
                  (acc1 @ marker (i + length images1 + 1) @ t,
                   tr1 @ [Progress (i + length images1 + 1) n, Call (Ocr (i + length images1 + 1)),
                          Show Info (ProcessedPage (i + length images1 + 1) n)]))"
    using assms(2) by (simp add: ocr_pages_append split: prod.splits)
qed

text \<open>
  A second page holding a single space: the native loop keeps page 1 only, the OCR loop
  writes the marker of page 2 and the space.
\<close>

theorem empty_page_asymmetry_witness:
  "(strip (or_empty (Some [32])) = [] \<and> blank_ocr 1 ''eng'' = Inr [32]) \<and>
   native_pages 0 [Inr (Some (lit ''Hi'')), Inr (Some [32])] [] = Inr (marker 1 @ lit ''Hi'') \<and>
   fst (ocr_pages blank_ocr ''eng'' 2 0 [0, 1] ([], [])) = marker 1 @ lit ''Hi'' @ marker 2 @ [32]"
proof -
  have h1: "strip (or_empty (Some [32])) = []"
    by (simp add: or_empty_def strip_def isspace_def)
  have h2: "blank_ocr 1 ''eng'' = Inr [32]"
    by (simp add: blank_ocr_def)
  have c: "native_pages 0 [Inr (Some (lit ''Hi'')), Inr (Some [32])] [] = Inr (marker 1 @ lit ''Hi'') \<and>
    fst (ocr_pages blank_ocr ''eng'' 2 0 [0, 1] ([], [])) = marker 1 @ lit ''Hi'' @ marker 2 @ [32]"
    using h1 h2 empty_page_asymmetry [where r = "Some [32]" and ocr = blank_ocr and img = 1
        and lang = "''eng''" and t = "[32]" and i = 0 and ?pages1.0 = "[Inr (Some (lit ''Hi''))]"
        and ?pages2.0 = "[]" and acc = "[]" and n = 2 and ?images1.0 = "[0]"
        and ?images2.0 = "[]" and tr = "[]"]
    by (simp add: and_then_def or_empty_def strip_Hi blank_ocr_def numeral_2_eq_2)
  from h1 h2 c show ?thesis by blast
qed

section \<open>Choice of the extraction strategy\<close>

text \<open>
  Claim C1 says that native text of at most 100 stripped characters is reset to the
  empty string, so that after a failed preflight the final text is empty.  The reset of
  line 159 is in the \<open>else\<close> branch of the preflight test: it happens only when OCR is
  about to run.  For an upload whose only page has the text layer \<open>Hi\<close>, on a system
  without Poppler, the stripped native text has 17 characters, the preflight fails, and
  the final text is still the native text, which is shown in the text area.
\<close>

theorem partial_native_text_survives_failed_preflight:
  "length (strip (extracted_text (after_native demo_config demo_upload no_poppler_world Map.empty))) \<le> 100 \<and>
   \<not> poppler_installed demo_config demo_upload no_poppler_world Map.empty \<and>
   extracted_text (snd (run demo_config demo_upload no_poppler_world Map.empty)) = marker 1 @ lit ''Hi'' \<and>
   extracted_text (snd (run demo_config demo_upload no_poppler_world Map.empty)) \<noteq> [] \<and>
   TextArea (marker 1 @ lit ''Hi'')
     \<in> set (trace (snd (run demo_config demo_upload no_poppler_world Map.empty)))"
proof -
  have t: "extracted_text (snd (run demo_config demo_upload no_poppler_world Map.empty)) =
             marker 1 @ lit ''Hi''"
    by (simp add: extracted_text_run demo_texts demo_preflight)
  have n: "strip (marker 1 @ lit ''Hi'') \<noteq> []"
    using demo_lengths(1) by auto
  obtain shown where
    "TextArea (marker 1 @ lit ''Hi'') \<in> set shown"
    "\<exists>before. trace (snd (run demo_config demo_upload no_poppler_world Map.empty)) =
       before @ [Call Unlink] @ shown @ [Tips]"
    using trace_run [of demo_config demo_upload no_poppler_world Map.empty] n
    unfolding t by blast
  then have shown: "TextArea (marker 1 @ lit ''Hi'')
     \<in> set (trace (snd (run demo_config demo_upload no_poppler_world Map.empty)))"
    by auto
  have short: "length (strip (extracted_text
      (after_native demo_config demo_upload no_poppler_world Map.empty))) \<le> 100"
    by (simp add: demo_texts demo_lengths)
  have failed: "\<not> poppler_installed demo_config demo_upload no_poppler_world Map.empty"
    by (rule demo_preflight)
  have kept: "extracted_text (snd (run demo_config demo_upload no_poppler_world Map.empty)) \<noteq> []"
    unfolding t by (simp add: marker_def)
  from short failed t kept shown show ?thesis by blast
qed

text \<open>
  Claim C1, as amended.  When the fallback is taken (the stripped native text has
  fewer than 100 characters, or OCR is forced), the run ends without an uncaught
  exception, and the final text is the OCR output if the preflight passes and the
  native text, unchanged, if it fails.  After a failed preflight no rasterization and
  no OCR call is made, the Poppler message is shown, and the native text is presented
  in the text area exactly when it is not blank.
\<close>

theorem failed_preflight_keeps_native_text:
  assumes "length (strip (extracted_text (after_native cfg up w fs))) < 100 \<or> fallback_all_pages cfg"
  shows "fst (run cfg up w fs) = None \<and>
         extracted_text (snd (run cfg up w fs)) =
           (if poppler_installed cfg up w fs then ocr_output cfg up w
            else extracted_text (after_native cfg up w fs)) \<and>
         (\<not> poppler_installed cfg up w fs \<longrightarrow>
            Call Rasterize \<notin> set (trace (snd (run cfg up w fs))) \<and>
            (\<forall>k. Call (Ocr k) \<notin> set (trace (snd (run cfg up w fs)))) \<and>
            Show Error PopplerMissing \<in> set (trace (snd (run cfg up w fs))) \<and>
            (TextArea (extracted_text (after_native cfg up w fs)) \<in> set (trace (snd (run cfg up w fs)))
               \<longleftrightarrow> strip (extracted_text (after_native cfg up w fs)) \<noteq> []))"
proof (intro conjI impI)
  show "fst (run cfg up w fs) = None" by (simp add: run_final)
  show t: "extracted_text (snd (run cfg up w fs)) =
           (if poppler_installed cfg up w fs then ocr_output cfg up w
            else extracted_text (after_native cfg up w fs))"
    using assms by (simp add: extracted_text_run)
  assume no: "\<not> poppler_installed cfg up w fs"
  obtain shown where tr: "trace (snd (run cfg up w fs)) =
       (trace (after_native cfg up w fs) @
        [Show Warning SwitchingToOcr, Call Preflight, Show Error PopplerMissing]) @
       [Call Unlink] @ shown @ [Tips]"
    and sh: "\<forall>c. Call c \<notin> set shown"
      "\<forall>t. TextArea t \<in> set shown \<longleftrightarrow>
          strip (extracted_text (snd (run cfg up w fs))) \<noteq> [] \<and> t = extracted_text (snd (run cfg up w fs))"
    using trace_run [of cfg up w fs] assms no by auto
  have nc: "\<And>c. Call c \<notin> set (trace (after_native cfg up w fs))"
    by (rule trace_after_native_no_calls)
  have nt: "\<And>t. TextArea t \<notin> set (trace (after_native cfg up w fs))"
    by (simp add: after_native_def native_stage_def page_count_probe_def start_def
      native_extraction_def split: sum.splits plumber.splits option.splits prod.splits)
  show "Call Rasterize \<notin> set (trace (snd (run cfg up w fs)))"
    using nc sh(1) by (simp add: tr)
  show "\<forall>k. Call (Ocr k) \<notin> set (trace (snd (run cfg up w fs)))"
    using nc sh(1) by (simp add: tr)
  show "Show Error PopplerMissing \<in> set (trace (snd (run cfg up w fs)))"
    by (simp add: tr)
  show "TextArea (extracted_text (after_native cfg up w fs)) \<in> set (trace (snd (run cfg up w fs)))
               \<longleftrightarrow> strip (extracted_text (after_native cfg up w fs)) \<noteq> []"
    using nt sh(2) t no by (simp add: tr)
qed

text \<open>The amended claim at the upload and system of the counterexample.\<close>

theorem failed_preflight_keeps_native_text_witness:
  "(length (strip (extracted_text (after_native demo_config demo_upload no_poppler_world Map.empty))) < 100 \<and>
    \<not> poppler_installed demo_config demo_upload no_poppler_world Map.empty) \<and>
   extracted_text (snd (run demo_config demo_upload no_poppler_world Map.empty)) = marker 1 @ lit ''Hi'' \<and>
   Call Rasterize \<notin> set (trace (snd (run demo_config demo_upload no_poppler_world Map.empty))) \<and>
   Show Error PopplerMissing \<in> set (trace (snd (run demo_config demo_upload no_poppler_world Map.empty)))"
proof -
  have h: "length (strip (extracted_text (after_native demo_config demo_upload no_poppler_world Map.empty))) < 100"
    by (simp add: demo_texts demo_lengths)
  have f: "\<not> poppler_installed demo_config demo_upload no_poppler_world Map.empty"
    by (rule demo_preflight)
  have t: "extracted_text (after_native demo_config demo_upload no_poppler_world Map.empty) =
             marker 1 @ lit ''Hi''"
    by (rule demo_texts)
  from h f t failed_preflight_keeps_native_text [of demo_config demo_upload no_poppler_world Map.empty]
  show ?thesis by simp
qed

text \<open>
  Claim C2 says that the fallback runs exactly when OCR is forced or the stripped native
  text has at most 100 characters.  Line 132 counts the native extraction as successful
  above 100 characters, and line 139 starts the fallback below 100: at exactly 100
  neither happens.  For an upload whose only page has a text layer of 85 letters,
  OCR not being forced and Poppler being installed, the stripped text has 100
  characters, no success message is shown, the preflight is not called, nothing is
  rasterized, and the native text is the final text.
\<close>

theorem exactly_100_characters_no_fallback:
  "length (strip (extracted_text (after_native demo_config demo_upload hundred_world Map.empty))) = 100 \<and>
   fallback_all_pages demo_config = False \<and>
   poppler_installed demo_config demo_upload hundred_world Map.empty \<and>
   Call Preflight \<notin> set (trace (snd (run demo_config demo_upload hundred_world Map.empty))) \<and>
   Call Rasterize \<notin> set (trace (snd (run demo_config demo_upload hundred_world Map.empty))) \<and>
   Show Success NativeSuccessful \<notin> set (trace (snd (run demo_config demo_upload hundred_world Map.empty))) \<and>
   extracted_text (snd (run demo_config demo_upload hundred_world Map.empty)) = marker 1 @ replicate 85 97"
proof -
  have l: "length (strip (extracted_text (after_native demo_config demo_upload hundred_world Map.empty))) = 100"
    by (simp add: demo_texts demo_lengths)
  have c: "fallback_all_pages demo_config = False"
    by (simp add: demo_config_def)
  obtain shown where tr: "trace (snd (run demo_config demo_upload hundred_world Map.empty)) =
      [Show Info Processing, Show Info (PdfHasPages 1)] @ [Call Unlink] @ shown @ [Tips]"
    and sh: "\<forall>c. Call c \<notin> set shown"
       "\<forall>t. TextArea t \<in> set shown \<longleftrightarrow>
          strip (extracted_text (snd (run demo_config demo_upload hundred_world Map.empty))) \<noteq> [] \<and>
          t = extracted_text (snd (run demo_config demo_upload hundred_world Map.empty))"
    using trace_run [of demo_config demo_upload hundred_world Map.empty] l c
    by (auto simp: demo_traces)
  have s: "Show Success NativeSuccessful \<notin> set (trace (present demo_upload hundred_world st))
      \<longleftrightarrow> Show Success NativeSuccessful \<notin> set (trace st)" for st
    by (simp add: present_def split: sum.splits)
  have n: "Show Success NativeSuccessful \<notin> set (trace (snd (run demo_config demo_upload hundred_world Map.empty)))"
    using l c by (simp add: run_final s ocr_stage_eq demo_traces)
  have t: "extracted_text (snd (run demo_config demo_upload hundred_world Map.empty)) =
      marker 1 @ replicate 85 97"
    using l c by (simp add: extracted_text_run demo_texts)
  have p: "poppler_installed demo_config demo_upload hundred_world Map.empty"
    by (rule demo_preflight)
  have "Call Preflight \<notin> set (trace (snd (run demo_config demo_upload hundred_world Map.empty)))"
       "Call Rasterize \<notin> set (trace (snd (run demo_config demo_upload hundred_world Map.empty)))"
    using sh(1) by (simp_all add: tr)
  with l c p n t show ?thesis by blast
qed

text \<open>
  Claim C4.  When OCR is not forced and the stripped native text has more than 100
  characters, the final text is the native text and neither rasterization nor OCR is
  called.  Whenever the upload is rasterized for OCR, the final text is the output of
  the OCR branch alone, which starts from an empty accumulator; an OCR call is never
  made without that rasterization.  When OCR is forced, native extraction leaves no
  text at all, the preflight is called, and the upload is rasterized exactly when the
  preflight passes.
\<close>

theorem one_strategy_is_authoritative:
  "(\<not> fallback_all_pages cfg \<and> 100 < length (strip (extracted_text (after_native cfg up w fs))) \<longrightarrow>
      extracted_text (snd (run cfg up w fs)) = extracted_text (after_native cfg up w fs) \<and>
      Call Rasterize \<notin> set (trace (snd (run cfg up w fs))) \<and>
      (\<forall>k. Call (Ocr k) \<notin> set (trace (snd (run cfg up w fs))))) \<and>
   (Call Rasterize \<in> set (trace (snd (run cfg up w fs))) \<longrightarrow>
      extracted_text (snd (run cfg up w fs)) = ocr_output cfg up w) \<and>
   (\<forall>k. Call (Ocr k) \<in> set (trace (snd (run cfg up w fs))) \<longrightarrow>
        Call Rasterize \<in> set (trace (snd (run cfg up w fs)))) \<and>
   (fallback_all_pages cfg \<longrightarrow>
      extracted_text (after_native cfg up w fs) = [] \<and>
      Call Preflight \<in> set (trace (snd (run cfg up w fs))) \<and>
      (Call Rasterize \<in> set (trace (snd (run cfg up w fs))) \<longleftrightarrow> poppler_installed cfg up w fs))"
proof -
  obtain shown where tr: "trace (snd (run cfg up w fs)) =
     (trace (after_native cfg up w fs) @
      (if length (strip (extracted_text (after_native cfg up w fs))) < 100 \<or> fallback_all_pages cfg then
         [Show Warning SwitchingToOcr, Call Preflight] @
         (if poppler_installed cfg up w fs then Call Rasterize # ocr_branch_events cfg up w
          else [Show Error PopplerMissing])
       else [])) @
     [Call Unlink] @ shown @ [Tips]"
    and sh: "\<forall>c. Call c \<notin> set shown"
    using trace_run [of cfg up w fs] by blast
  have nc: "\<And>c. Call c \<notin> set (trace (after_native cfg up w fs))"
    by (rule trace_after_native_no_calls)
  have r: "Call Rasterize \<in> set (trace (snd (run cfg up w fs))) \<longleftrightarrow>
      (length (strip (extracted_text (after_native cfg up w fs))) < 100 \<or> fallback_all_pages cfg) \<and>
      poppler_installed cfg up w fs"
    using nc sh by (auto simp: tr dest: ocr_branch_events_calls)
  have o: "Call (Ocr k) \<in> set (trace (snd (run cfg up w fs))) \<Longrightarrow>
      Call Rasterize \<in> set (trace (snd (run cfg up w fs)))" for k
    using nc sh by (auto simp: tr split: if_splits)
  have p: "fallback_all_pages cfg \<Longrightarrow> Call Preflight \<in> set (trace (snd (run cfg up w fs)))"
    by (simp add: tr)
  show ?thesis
    using r o p by (auto simp: extracted_text_run after_native_forced)
qed

text \<open>
  Two runs: a page of 101 letters without forcing, where the native text is final, and
  the demo upload (text layer \<open>Hi\<close>) with OCR forced, where the final text is what OCR
  read.
\<close>

theorem one_strategy_is_authoritative_witness:
  "((\<not> fallback_all_pages demo_config \<and>
     100 < length (strip (extracted_text (after_native demo_config demo_upload long_world Map.empty)))) \<and>
    extracted_text (snd (run demo_config demo_upload long_world Map.empty)) = marker 1 @ replicate 101 97 \<and>
    Call Rasterize \<notin> set (trace (snd (run demo_config demo_upload long_world Map.empty)))) \<and>
   ((fallback_all_pages force_config \<and> poppler_installed force_config demo_upload demo_world Map.empty) \<and>
    Call Rasterize \<in> set (trace (snd (run force_config demo_upload demo_world Map.empty))) \<and>
    extracted_text (snd (run force_config demo_upload demo_world Map.empty)) = marker 1 @ lit ''scan'')"
proof -
  have "\<not> fallback_all_pages demo_config"
    by (simp add: demo_config_def)
  moreover
  have "100 < length (strip (extracted_text (after_native demo_config demo_upload long_world Map.empty)))"
    by (simp add: demo_texts demo_lengths)
  ultimately have a: "\<not> fallback_all_pages demo_config \<and>
     100 < length (strip (extracted_text (after_native demo_config demo_upload long_world Map.empty)))"
    by (rule conjI)
  have b: "fallback_all_pages force_config \<and> poppler_installed force_config demo_upload demo_world Map.empty"
    by (simp add: force_config_def demo_preflight)
  from a one_strategy_is_authoritative [of demo_config demo_upload long_world Map.empty]
  have 1: "extracted_text (snd (run demo_config demo_upload long_world Map.empty)) = marker 1 @ replicate 101 97 \<and>
    Call Rasterize \<notin> set (trace (snd (run demo_config demo_upload long_world Map.empty)))"
    by (simp add: demo_texts)
  from b one_strategy_is_authoritative [of force_config demo_upload demo_world Map.empty]
  have 2: "Call Rasterize \<in> set (trace (snd (run force_config demo_upload demo_world Map.empty))) \<and>
    extracted_text (snd (run force_config demo_upload demo_world Map.empty)) = marker 1 @ lit ''scan''"
    by (simp add: demo_ocr_output)
  from a b 1 2 show ?thesis by blast
qed

section \<open>The transient copy of the upload\<close>

text \<open>
  Claim C8.  Whatever the collaborators do, the run ends without an uncaught exception
  and its trace has one call of \<open>os.unlink\<close> on the transient copy, after every other
  call of the run; the result presentation follows it, up to the troubleshooting tips,
  whether the deletion raised or not.  When the deletion does not raise, the transient
  copy is not among the files at the end.
\<close>

theorem transient_copy_is_removed:
  "\<exists>st before shown.
      run cfg up w fs = (None, st) \<and>
      trace st = before @ [Call Unlink] @ shown @ [Tips] \<and>
      Call Unlink \<notin> set before \<and> (\<forall>c. Call c \<notin> set shown) \<and>
      (os_remove w (tmp_pdf_path w) = None \<longrightarrow> files st (tmp_pdf_path w) = None)"
proof -
  define before where "before =
     trace (after_native cfg up w fs) @
      (if length (strip (extracted_text (after_native cfg up w fs))) < 100 \<or> fallback_all_pages cfg then
         [Show Warning SwitchingToOcr, Call Preflight] @
         (if poppler_installed cfg up w fs then Call Rasterize # ocr_branch_events cfg up w
          else [Show Error PopplerMissing])
       else [])"
  obtain shown where tr: "trace (snd (run cfg up w fs)) = before @ [Call Unlink] @ shown @ [Tips]"
    and sh: "\<forall>c. Call c \<notin> set shown"
    using trace_run [of cfg up w fs] unfolding before_def by blast
  have nc: "\<And>c. Call c \<notin> set (trace (after_native cfg up w fs))"
    by (rule trace_after_native_no_calls)
  have b: "Call Unlink \<notin> set before"
    using nc by (auto simp: before_def dest: ocr_branch_events_calls)
  have r: "run cfg up w fs = (None, snd (run cfg up w fs))"
    by (simp add: run_final)
  have f: "os_remove w (tmp_pdf_path w) = None \<longrightarrow>
      files (snd (run cfg up w fs)) (tmp_pdf_path w) = None"
    by (simp add: files_run)
  show ?thesis
  proof (intro exI conjI)
    show "run cfg up w fs = (None, snd (run cfg up w fs))" by (rule r)
    show "trace (snd (run cfg up w fs)) = before @ [Call Unlink] @ shown @ [Tips]" by (rule tr)
    show "Call Unlink \<notin> set before" by (rule b)
    show "\<forall>c. Call c \<notin> set shown" by (rule sh)
    show "os_remove w (tmp_pdf_path w) = None \<longrightarrow>
      files (snd (run cfg up w fs)) (tmp_pdf_path w) = None" by (rule f)
  qed
qed

text \<open>
  The demo run, after which the copy is gone, and a run on a system where deletion
  raises, which still reaches the end of the presentation.
\<close>

theorem transient_copy_is_removed_witness:
  "(os_remove demo_world (tmp_pdf_path demo_world) = None \<and>
    fst (run demo_config demo_upload demo_world Map.empty) = None \<and>
    files (snd (run demo_config demo_upload demo_world Map.empty)) ''/tmp/tmpk3v9x2.pdf'' = None) \<and>
   (fst (run demo_config demo_upload undeletable_world Map.empty) = None \<and>
    Call Unlink \<in> set (trace (snd (run demo_config demo_upload undeletable_world Map.empty))) \<and>
    last (trace (snd (run demo_config demo_upload undeletable_world Map.empty))) = Tips)"
proof -
  have h: "os_remove demo_world (tmp_pdf_path demo_world) = None"
    by (simp add: demo_world_def)
  have p: "tmp_pdf_path demo_world = ''/tmp/tmpk3v9x2.pdf''"
    by (simp add: demo_world_def)
  from h transient_copy_is_removed [of demo_config demo_upload demo_world Map.empty]
  have 1: "fst (run demo_config demo_upload demo_world Map.empty) = None \<and>
    files (snd (run demo_config demo_upload demo_world Map.empty)) ''/tmp/tmpk3v9x2.pdf'' = None"
    unfolding p by auto
  from transient_copy_is_removed [of demo_config demo_upload undeletable_world Map.empty]
  have 2: "fst (run demo_config demo_upload undeletable_world Map.empty) = None \<and>
    Call Unlink \<in> set (trace (snd (run demo_config demo_upload undeletable_world Map.empty))) \<and>
    last (trace (snd (run demo_config demo_upload undeletable_world Map.empty))) = Tips"
    by auto
  from h 1 2 show ?thesis by blast
qed

section \<open>The re-rendered document\<close>

text \<open>
  Claim C3 says that \<open>create_pdf_from_text\<close> returns a non-empty buffer for every text
  and title, a line whose rendering fails being replaced by the placeholder.  The
  \<open>try\<close> of lines 91 to 95 is around \<open>multi_cell\<close>, which accepts a line with a
  character outside latin-1; the encoding fails in \<open>output\<close> at line 97, outside of any
  \<open>try\<close>.  For the text \<open>ab\<close>, newline, code point 25991 and \<open>cd\<close>, with a plain title:
  the loop adds both lines as they are, no placeholder is written, and the function
  raises.  The same call with the text \<open>ab\<close> alone returns the buffer.
\<close>

theorem line_outside_latin1_raises_in_output:
  "render_lines demo_fpdf (split_newline (lit ''ab'' @ [10, 25991] @ lit ''cd''))
       [lit ''Extracted from a.pdf''] =
     Inr [lit ''Extracted from a.pdf'', lit ''ab'', 25991 # lit ''cd''] \<and>
   create_pdf_from_text demo_fpdf (lit ''ab'' @ [10, 25991] @ lit ''cd'')
       (lit ''Extracted from a.pdf'') =
     Inl (Exception ''UnicodeEncodeError'') \<and>
   create_pdf_from_text demo_fpdf (lit ''ab'') (lit ''Extracted from a.pdf'') =
     Inr ''%PDF-1.3Extracted from a.pdfab''"
proof -
  have b: "begin_document demo_fpdf (lit ''Extracted from a.pdf'') =
      Inr [lit ''Extracted from a.pdf'']"
    by (simp add: begin_document_def and_then_def demo_fpdf_def)
  have s: "split_newline (lit ''ab'' @ [10, 25991] @ lit ''cd'') = [lit ''ab'', 25991 # lit ''cd'']"
    "split_newline (lit ''ab'') = [lit ''ab'']"
    by (simp_all add: lit_def)
  have n: "lit ''ab'' \<noteq> []"
    by (simp add: lit_def)
  have r: "render_lines demo_fpdf [lit ''ab'', 25991 # lit ''cd''] [lit ''Extracted from a.pdf''] =
      Inr [lit ''Extracted from a.pdf'', lit ''ab'', 25991 # lit ''cd'']"
    "render_lines demo_fpdf [lit ''ab''] [lit ''Extracted from a.pdf''] =
      Inr [lit ''Extracted from a.pdf'', lit ''ab'']"
    using n by (simp_all add: demo_fpdf_def)
  have o1: "output_S demo_fpdf [lit ''Extracted from a.pdf'', lit ''ab'', 25991 # lit ''cd''] =
      Inl (Exception ''UnicodeEncodeError'')"
    by (simp add: demo_fpdf_def list_all_lit)
  have o2: "output_S demo_fpdf [lit ''Extracted from a.pdf'', lit ''ab''] =
      Inr (lit ''%PDF-1.3Extracted from a.pdfab'')"
    by (simp add: demo_fpdf_def list_all_lit lit_append)
  have c1: "create_pdf_from_text demo_fpdf (lit ''ab'' @ [10, 25991] @ lit ''cd'')
       (lit ''Extracted from a.pdf'') = Inl (Exception ''UnicodeEncodeError'')"
    by (simp only: create_pdf_from_text_def b s r o1 and_then_def sum.case)
  have c2: "create_pdf_from_text demo_fpdf (lit ''ab'') (lit ''Extracted from a.pdf'') =
     Inr ''%PDF-1.3Extracted from a.pdfab''"
    by (simp only: create_pdf_from_text_def b s r o2 and_then_def sum.case encode_latin1_lit)
  from r(1) c1 c2 show ?thesis
    by (simp only: s)
qed

end
